theory Spec2Isabelle
  imports Main "HOL-Library.AList"
begin

section \<open>Data model\<close>

text \<open>
  Strings are byte lists. \<open>str.lower()\<close> is modelled on the ASCII letters, which is
  the alphabet of every machine name, source name and constant of the database.
\<close>

definition lower_char :: "char \<Rightarrow> char" where
  "lower_char c =
     (let n = (of_char c :: nat) in if 65 \<le> n \<and> n \<le> 90 then char_of (n + 32) else c)"

definition lower :: "string \<Rightarrow> string" where
  "lower s = map lower_char s"

text \<open>A Lark tree: an inner node carries the rule name, a token its type and its text.
  \<open>PyNone\<close> is Python's \<open>None\<close> standing where a child is expected.\<close>

datatype ast = Tree string "ast list" | Token string string | PyNone

datatype py_error = AssertionError string | KeyError string | ValueError string
  | ZeroDivisionError | OverflowError | TypeError | IndexError | AttributeError

text \<open>\<open>HardwareBlockType\<close>, \<open>HardwareBlockLayout\<close> and \<open>HardwareCounterLayout\<close> are
  declared in \<open>data/hardwarelayout.py\<close>; only the members read by the code below are kept.
  Enum members and layout objects returned by a lookup are true as a condition.\<close>

datatype HardwareBlockType = GPU_FRONTEND | SHADER_CORE | MEMORY_SYSTEM | TILER

record HBLayout =
  btype :: HardwareBlockType
  bank :: nat

record HCLayout =
  index :: nat
  shift :: nat

datatype CounterClockDomain = CLOCK_GPU | CLOCK_SHADER_CORE

datatype CounterVisibility = NOVICE | ADVANCED_APPLICATION | ADVANCED_SYSTEM | INTERNAL

fun visibility_value :: "CounterVisibility \<Rightarrow> nat" where
  "visibility_value NOVICE = 1"
| "visibility_value ADVANCED_APPLICATION = 2"
| "visibility_value ADVANCED_SYSTEM = 3"
| "visibility_value INTERNAL = 4"

datatype CounterTrend = HIGHER_BETTER | INFORMATIVE | LOWER_BETTER

record ProductInfo =
  database_key :: string
  features :: "string list"

definition has_feature :: "ProductInfo \<Rightarrow> string \<Rightarrow> bool" where
  "has_feature pi feature = (feature \<in> set (features pi))"

record CounterInfo =
  ci_machine_name :: string
  ci_stable_id :: "int option"
  ci_source_name :: "string option"
  ci_source_name_aliases :: "string list"
  ci_human_name :: string
  ci_group_name :: string
  ci_group_human_name :: string
  ci_visibility :: CounterVisibility
  ci_short_description :: string
  ci_long_description :: string
  ci_units :: string
  ci_trend :: CounterTrend
  ci_equation_ast :: "ast option"
  ci_gpu_support :: "string list"

definition supports_gpu :: "CounterInfo \<Rightarrow> string \<Rightarrow> bool" where
  "supports_gpu ci k = (k \<in> set (ci_gpu_support ci))"

record CounterView =
  block_type :: "HardwareBlockType option"
  block_index :: nat
  scale_multiplier :: nat
  clock_domain :: "CounterClockDomain option"
  machine_name :: string
  stable_id :: int
  human_name :: string
  group_name :: string
  group_human_name :: string
  visibility :: CounterVisibility
  short_description :: string
  long_description :: string
  unit :: string
  trend :: CounterTrend
  equation_ast :: "ast option"
  equation_ast_resolved :: "ast option"
  equation_ast_resolved_error :: "string option"
  source_name :: "string option"

text \<open>Truth value of an optional string: \<open>None\<close> and the empty string are false.\<close>

fun truthy :: "string option \<Rightarrow> bool" where
  "truthy None = False"
| "truthy (Some s) = (s \<noteq> [])"

section \<open>CounterView\<close>

text \<open>The clock-domain chain of \<open>CounterView.__init__\<close>, on the block type already
  stored in the view.\<close>

definition compute_clock_domain ::
  "ProductInfo \<Rightarrow> HardwareBlockType option \<Rightarrow> CounterClockDomain option" where
  "compute_clock_domain pi bt =
     (case bt of
        None \<Rightarrow> None
      | Some b \<Rightarrow>
          if \<not> has_feature pi ''async_clock'' then Some CLOCK_GPU
          else if b = SHADER_CORE then Some CLOCK_SHADER_CORE
          else Some CLOCK_GPU)"

text \<open>\<open>CounterView.__init__\<close>. The assertion on the stable ID is the only failure.\<close>

definition new_CounterView ::
  "ProductInfo \<Rightarrow> string option \<Rightarrow> HBLayout option \<Rightarrow> HCLayout option \<Rightarrow> CounterInfo
   \<Rightarrow> py_error + CounterView" where
  "new_CounterView pi hw_name hw_bl hw_cl ci =
     (let bt = (case hw_bl of None \<Rightarrow> None | Some bl \<Rightarrow> Some (btype bl));
          bi = (case hw_cl of None \<Rightarrow> 0 | Some cl \<Rightarrow> index cl);
          sm = (case hw_cl of None \<Rightarrow> 1 | Some cl \<Rightarrow> 2 ^ shift cl)
      in case ci_stable_id ci of
           None \<Rightarrow> Inl (AssertionError '''')
         | Some sid \<Rightarrow> Inr
            \<lparr> block_type = bt, block_index = bi, scale_multiplier = sm,
              clock_domain = compute_clock_domain pi bt,
              machine_name = ci_machine_name ci, stable_id = sid,
              human_name = ci_human_name ci, group_name = ci_group_name ci,
              group_human_name = ci_group_human_name ci, visibility = ci_visibility ci,
              short_description = ci_short_description ci,
              long_description = ci_long_description ci,
              unit = ci_units ci, trend = ci_trend ci,
              equation_ast = ci_equation_ast ci,
              equation_ast_resolved = None, equation_ast_resolved_error = None,
              source_name = hw_name \<rparr>)"

definition is_derived :: "CounterView \<Rightarrow> bool" where
  "is_derived c = (\<not> truthy (source_name c))"

definition is_visible :: "CounterView \<Rightarrow> CounterVisibility \<Rightarrow> bool" where
  "is_visible c max_visibility = (visibility_value (visibility c) \<le> visibility_value max_visibility)"

section \<open>IndexedView\<close>

text \<open>A Python dictionary keeps its keys in insertion order and an assignment to a
  present key replaces the value where it stands: an association list under
  \<open>AList.update\<close>. \<open>values()\<close> is the list of second components.\<close>

record IndexedView =
  gpu :: string
  key :: string
  by_stable_id :: "(int \<times> CounterView) list"
  by_machine_name :: "(string \<times> CounterView) list"
  by_source_name :: "(string \<times> CounterView) list"
  by_human_name :: "(string \<times> CounterView) list"
  by_group_names :: "(string \<times> CounterView) list"

definition new_IndexedView :: "string \<Rightarrow> string \<Rightarrow> IndexedView" where
  "new_IndexedView g k =
     \<lparr> gpu = g, key = k, by_stable_id = [], by_machine_name = [], by_source_name = [],
       by_human_name = [], by_group_names = [] \<rparr>"

definition get_by_stable_id :: "IndexedView \<Rightarrow> int \<Rightarrow> CounterView option" where
  "get_by_stable_id v k = map_of (by_stable_id v) k"

definition get_by_machine_name :: "IndexedView \<Rightarrow> string \<Rightarrow> CounterView option" where
  "get_by_machine_name v k = map_of (by_machine_name v) (lower k)"

definition get_by_source_name :: "IndexedView \<Rightarrow> string \<Rightarrow> CounterView option" where
  "get_by_source_name v k = map_of (by_source_name v) (lower k)"

definition get_by_human_name :: "IndexedView \<Rightarrow> string \<Rightarrow> CounterView option" where
  "get_by_human_name v k = map_of (by_human_name v) (lower k)"

definition group_index :: "string \<Rightarrow> string \<Rightarrow> string" where
  "group_index g h = g @ ''|'' @ h"

definition get_by_group_names :: "IndexedView \<Rightarrow> string \<Rightarrow> string \<Rightarrow> CounterView option" where
  "get_by_group_names v g h = map_of (by_group_names v) (lower (group_index g h))"

text \<open>The five index assignments shared by \<open>filter\<close> and \<open>from_db\<close>.\<close>

definition add_indexes :: "CounterView \<Rightarrow> IndexedView \<Rightarrow> IndexedView" where
  "add_indexes c v =
     v \<lparr> by_stable_id := AList.update (stable_id c) c (by_stable_id v),
         by_machine_name := AList.update (lower (machine_name c)) c (by_machine_name v),
         by_source_name :=
           (if truthy (source_name c)
            then AList.update (lower (the (source_name c))) c (by_source_name v)
            else by_source_name v),
         by_human_name := AList.update (lower (human_name c)) c (by_human_name v),
         by_group_names :=
           AList.update (lower (group_index (group_name c) (group_human_name c))) c
             (by_group_names v) \<rparr>"

text \<open>\<open>IndexedView.from_db\<close>. The hardware layout database is the lookup
  \<open>get_counter_by_name\<close> of \<open>data/hardwarelayout.py\<close>, taken as a parameter.\<close>

type_synonym HWLayout = "string \<Rightarrow> (HBLayout \<times> HCLayout) option"

fun find_hw :: "HWLayout \<Rightarrow> string list \<Rightarrow> (string \<times> HBLayout \<times> HCLayout) option" where
  "find_hw hw_db [] = None"
| "find_hw hw_db (name # names) =
     (case hw_db name of
        Some (bl, cl) \<Rightarrow> Some (name, bl, cl)
      | None \<Rightarrow> find_hw hw_db names)"

definition build_view :: "ProductInfo \<Rightarrow> HWLayout \<Rightarrow> CounterInfo \<Rightarrow> py_error + CounterView" where
  "build_view pi hw_db counter =
     (if truthy (ci_source_name counter) then
        (case find_hw hw_db (the (ci_source_name counter) # ci_source_name_aliases counter) of
           Some (name, bl, cl) \<Rightarrow> new_CounterView pi (Some name) (Some bl) (Some cl) counter
         | None \<Rightarrow> new_CounterView pi (ci_source_name counter) None None counter)
      else new_CounterView pi None None None counter)"

fun from_db_loop ::
  "ProductInfo \<Rightarrow> HWLayout \<Rightarrow> CounterInfo list \<Rightarrow> IndexedView \<Rightarrow> py_error + IndexedView" where
  "from_db_loop pi hw_db [] view = Inr view"
| "from_db_loop pi hw_db (counter # rest) view =
     (if \<not> supports_gpu counter (key view) then from_db_loop pi hw_db rest view
      else case build_view pi hw_db counter of
             Inl e \<Rightarrow> Inl e
           | Inr ct_view \<Rightarrow> from_db_loop pi hw_db rest (add_indexes ct_view view))"

definition from_db ::
  "string \<Rightarrow> ProductInfo \<Rightarrow> HWLayout \<Rightarrow> CounterInfo list \<Rightarrow> py_error + IndexedView" where
  "from_db product pi hw_db ct_db =
     from_db_loop pi hw_db ct_db (new_IndexedView product (database_key pi))"

text \<open>\<open>IndexedView.filter\<close>. The loop state holds both views: the one iterated over and
  the fresh one the assignments go to.\<close>

definition filter_step ::
  "CounterVisibility \<Rightarrow> bool \<Rightarrow> CounterView \<Rightarrow> IndexedView \<times> IndexedView
   \<Rightarrow> IndexedView \<times> IndexedView" where
  "filter_step max_visibility derived counter st =
     (if \<not> is_visible counter max_visibility then st
      else if is_derived counter \<and> \<not> derived then st
      else (fst st, add_indexes counter (snd st)))"

fun filter_loop ::
  "CounterVisibility \<Rightarrow> bool \<Rightarrow> CounterView list \<Rightarrow> IndexedView \<times> IndexedView
   \<Rightarrow> IndexedView \<times> IndexedView" where
  "filter_loop mv d [] st = st"
| "filter_loop mv d (c # cs) st = filter_loop mv d cs (filter_step mv d c st)"

definition filter_view ::
  "IndexedView \<Rightarrow> CounterVisibility \<Rightarrow> bool \<Rightarrow> IndexedView \<times> IndexedView" where
  "filter_view self max_visibility derived =
     filter_loop max_visibility derived (map snd (by_stable_id self))
       (self, new_IndexedView (gpu self) (key self))"

text \<open>The predicate of \<open>filter\<close> in the words of its description: the counter is
  visible at the given level and is allowed as a derived counter.\<close>

definition passes_filter :: "CounterVisibility \<Rightarrow> bool \<Rightarrow> CounterView \<Rightarrow> bool" where
  "passes_filter max_visibility derived c =
     (visibility_value (visibility c) \<le> visibility_value max_visibility
      \<and> (derived \<or> \<not> is_derived c))"

text \<open>An index holds exactly the counters of \<open>S\<close>, each under its own key, with no key
  twice.\<close>

definition index_over :: "('k \<times> CounterView) list \<Rightarrow> CounterView set \<Rightarrow> (CounterView \<Rightarrow> 'k) \<Rightarrow> bool" where
  "index_over al S kf =
     (distinct (map fst al) \<and> (\<forall>(k, c) \<in> set al. c \<in> S \<and> k = kf c) \<and> fst ` set al = kf ` S)"

text \<open>The state in which the factories leave the stable-ID index: every counter stands
  under its own stable ID.\<close>

definition well_indexed :: "IndexedView \<Rightarrow> bool" where
  "well_indexed v =
     (distinct (map fst (by_stable_id v)) \<and> (\<forall>(k, c) \<in> set (by_stable_id v). stable_id c = k))"

section \<open>Semantic documentation lookup\<close>

text \<open>\<open>SemanticGroupInfo\<close> and \<open>SemanticSectionInfo\<close> have the same three attributes.\<close>

record SemanticInfo =
  si_name :: string
  si_long_description :: string
  si_gpu_support :: "string list"

text \<open>The loop of \<open>get_info_for\<close> over the candidate list, with the local \<open>default\<close>.
  An info object is true as a condition, so \<open>assert not default\<close> fails exactly when a
  default is already held.\<close>

fun get_info_loop ::
  "string \<Rightarrow> SemanticInfo list \<Rightarrow> SemanticInfo option \<Rightarrow> py_error + SemanticInfo" where
  "get_info_loop k [] default_info =
     (case default_info of None \<Rightarrow> Inl (KeyError ''No default'') | Some d \<Rightarrow> Inr d)"
| "get_info_loop k (info # rest) default_info =
     (if k \<in> set (si_gpu_support info) then Inr info
      else if si_gpu_support info = [] then
        (case default_info of
           Some d \<Rightarrow> Inl (AssertionError ''Two defaults'')
         | None \<Rightarrow> get_info_loop k rest (Some info))
      else get_info_loop k rest default_info)"

text \<open>\<open>SemanticGroupInfos.get_info_for\<close> and \<open>SemanticSectionInfos.get_info_for\<close>: the
  two differ in the name of the dictionary and in the text of the messages only.\<close>

definition get_info_for ::
  "(string \<rightharpoonup> SemanticInfo list) \<Rightarrow> string \<Rightarrow> string \<Rightarrow> py_error + SemanticInfo" where
  "get_info_for groups k g =
     (case groups g of
        None \<Rightarrow> Inl (KeyError ''No group'')
      | Some group_list \<Rightarrow>
          if group_list = [] then Inl (KeyError ''No group'')
          else get_info_loop k group_list None)"

text \<open>The candidates standing before the first one that names the key, and the defaults
  among a list of candidates.\<close>

definition before_match :: "string \<Rightarrow> SemanticInfo list \<Rightarrow> SemanticInfo list" where
  "before_match k l = takeWhile (\<lambda>info. k \<notin> set (si_gpu_support info)) l"

definition first_match :: "string \<Rightarrow> SemanticInfo list \<Rightarrow> SemanticInfo option" where
  "first_match k l = find (\<lambda>info. k \<in> set (si_gpu_support info)) l"

definition defaults :: "SemanticInfo list \<Rightarrow> SemanticInfo list" where
  "defaults l = filter (\<lambda>info. si_gpu_support info = []) l"

section \<open>Validator: stable IDs\<close>

text \<open>The locals of \<open>validate_stable_ids\<close>. The dictionaries hold the counters found;
  \<open>missing_ids\<close> holds, per machine name, the positions in the database of the counters
  to patch, since the patch is made on the database's own objects.\<close>

record stable_ids_state =
  errors :: nat
  found_ids :: "(int \<times> CounterInfo) list"
  found_names :: "(string \<times> CounterInfo) list"
  missing_ids :: "(string \<times> nat list) list"

definition check_stable_id :: "nat \<Rightarrow> CounterInfo \<Rightarrow> stable_ids_state \<Rightarrow> stable_ids_state" where
  "check_stable_id pos counter st =
     (case ci_stable_id counter of
        None \<Rightarrow>
          st \<lparr> missing_ids :=
                 AList.update (ci_machine_name counter)
                   ((case map_of (missing_ids st) (ci_machine_name counter) of
                       None \<Rightarrow> [] | Some l \<Rightarrow> l) @ [pos])
                   (missing_ids st) \<rparr>
      | Some sid \<Rightarrow>
          (let st1 =
                 (case map_of (found_ids st) sid of
                    None \<Rightarrow> st \<lparr> found_ids := AList.update sid counter (found_ids st) \<rparr>
                  | Some f \<Rightarrow>
                      if ci_machine_name f \<noteq> ci_machine_name counter
                      then st \<lparr> errors := errors st + 1 \<rparr> else st)
           in case map_of (found_names st1) (ci_machine_name counter) of
                None \<Rightarrow>
                  st1 \<lparr> found_names :=
                          AList.update (ci_machine_name counter) counter (found_names st1) \<rparr>
              | Some f \<Rightarrow>
                  if ci_stable_id f \<noteq> Some sid
                  then st1 \<lparr> errors := errors st1 + 1 \<rparr> else st1))"

fun check_stable_ids :: "nat \<Rightarrow> CounterInfo list \<Rightarrow> stable_ids_state \<Rightarrow> stable_ids_state" where
  "check_stable_ids pos [] st = st"
| "check_stable_ids pos (counter # rest) st =
     check_stable_ids (pos + 1) rest (check_stable_id pos counter st)"

text \<open>\<open>get_unassigned_id\<close>: \<open>max\<close> of no keys raises \<open>ValueError\<close>; past the range the
  function returns 0.\<close>

definition get_unassigned_id :: "(int \<times> CounterInfo) list \<Rightarrow> py_error + int" where
  "get_unassigned_id fids =
     (case map fst fids of
        [] \<Rightarrow> Inl (ValueError ''max() arg is an empty sequence'')
      | k # ks \<Rightarrow>
          (case find (\<lambda>i. i \<notin> set (k # ks)) [0 .. fold max ks k + 1] of
             Some i \<Rightarrow> Inr i
           | None \<Rightarrow> Inr 0))"

fun patch_counters :: "int option \<Rightarrow> nat list \<Rightarrow> nat \<times> CounterInfo list \<Rightarrow> nat \<times> CounterInfo list" where
  "patch_counters sid [] acc = acc"
| "patch_counters sid (pos # rest) (errs, db) =
     patch_counters sid rest (errs + 1, db[pos := (db ! pos) \<lparr> ci_stable_id := sid \<rparr>])"

fun assign_missing ::
  "stable_ids_state \<Rightarrow> (string \<times> nat list) list \<Rightarrow> nat \<times> CounterInfo list
   \<Rightarrow> py_error + nat \<times> CounterInfo list" where
  "assign_missing st [] acc = Inr acc"
| "assign_missing st ((name, counters) # rest) acc =
     (case map_of (found_names st) name of
        Some f \<Rightarrow> assign_missing st rest (patch_counters (ci_stable_id f) counters acc)
      | None \<Rightarrow>
          (case get_unassigned_id (found_ids st) of
             Inl e \<Rightarrow> Inl e
           | Inr sid \<Rightarrow> assign_missing st rest (patch_counters (Some sid) counters acc)))"

text \<open>\<open>validate_stable_ids\<close>: the error count and the database as patched.\<close>

definition validate_stable_ids :: "CounterInfo list \<Rightarrow> py_error + nat \<times> CounterInfo list" where
  "validate_stable_ids cnt_db =
     (let st = check_stable_ids 0 cnt_db
                 \<lparr> errors = 0, found_ids = [], found_names = [], missing_ids = [] \<rparr>
      in assign_missing st (missing_ids st) (errors st, cnt_db))"

section \<open>Equation resolve transformer\<close>

text \<open>\<open>CONSTANT_PATTERN.match\<close> for \<open>^[A-Z0-9_]+$\<close>: one or more characters of the class,
  up to the end of the string or to a single newline that ends it.\<close>

definition constant_char :: "char \<Rightarrow> bool" where
  "constant_char c =
     (let n = (of_char c :: nat) in (65 \<le> n \<and> n \<le> 90) \<or> (48 \<le> n \<and> n \<le> 57) \<or> n = 95)"

definition CONSTANT_PATTERN_match :: "string \<Rightarrow> bool" where
  "CONSTANT_PATTERN_match s =
     (let body = (if s \<noteq> [] \<and> last s = CHR 0x0A then butlast s else s)
      in body \<noteq> [] \<and> list_all constant_char body)"

text \<open>
  \<open>EquationResolveTransformer.transform\<close>. The transformer has the one callback \<open>NAME\<close>,
  called on every token of that type; every other token is kept and every tree is rebuilt
  under its rule name from the transformed children, left to right. \<open>NAME\<close> starts a new
  transformer on the equation of a derived counter: the recursion has no guard, so the
  model counts the nesting of transformers down from \<open>fuel\<close> and \<open>None\<close> is a recursion
  that did not end within it. A failed assertion ends the whole transform. Lark passes a
  value that is neither a tree nor a token through, so the transform of an absent
  equation (\<open>None\<close>) is \<open>None\<close>, put where the name stood.
\<close>

fun resolve :: "nat \<Rightarrow> IndexedView \<Rightarrow> ast \<Rightarrow> (py_error + ast) option"
  and resolve_children :: "nat \<Rightarrow> IndexedView \<Rightarrow> ast list \<Rightarrow> (py_error + ast list) option" where
  "resolve fuel view PyNone = Some (Inr PyNone)"
| "resolve fuel view (Token ty args) =
     (if ty \<noteq> ''NAME'' then Some (Inr (Token ty args))
      else if CONSTANT_PATTERN_match args then Some (Inr (Token ty args))
      else case get_by_machine_name view args of
             None \<Rightarrow> Some (Inl (AssertionError (''Missing counter: '' @ args)))
           | Some counter \<Rightarrow>
               if \<not> is_derived counter then Some (Inr (Token ty args))
               else case fuel of
                      0 \<Rightarrow> None
                    | Suc fuel' \<Rightarrow>
                        (case equation_ast counter of
                           None \<Rightarrow> Some (Inr PyNone)
                         | Some a \<Rightarrow> resolve fuel' view a))"
| "resolve fuel view (Tree d children) =
     (case resolve_children fuel view children of
        None \<Rightarrow> None
      | Some (Inl e) \<Rightarrow> Some (Inl e)
      | Some (Inr children') \<Rightarrow> Some (Inr (Tree d children')))"
| "resolve_children fuel view [] = Some (Inr [])"
| "resolve_children fuel view (c # cs) =
     (case resolve fuel view c of
        None \<Rightarrow> None
      | Some (Inl e) \<Rightarrow> Some (Inl e)
      | Some (Inr c') \<Rightarrow>
          (case resolve_children fuel view cs of
             None \<Rightarrow> None
           | Some (Inl e) \<Rightarrow> Some (Inl e)
           | Some (Inr cs') \<Rightarrow> Some (Inr (c' # cs'))))"








section \<open>Validator: cardinality of derived equations\<close>

datatype Domain = DOMAIN_GPU | DOMAIN_MEM | DOMAIN_SC

fun domain_value :: "Domain \<Rightarrow> string" where
  "domain_value DOMAIN_GPU = ''GPU''"
| "domain_value DOMAIN_MEM = ''MEM''"
| "domain_value DOMAIN_SC = ''SC''"

text \<open>The tables of \<open>validate_derived_equation_cardinality\<close>.\<close>

fun domains :: "HardwareBlockType \<Rightarrow> Domain" where
  "domains GPU_FRONTEND = DOMAIN_GPU"
| "domains TILER = DOMAIN_GPU"
| "domains MEMORY_SYSTEM = DOMAIN_MEM"
| "domains SHADER_CORE = DOMAIN_SC"

definition scaling_constants :: "(string \<times> Domain) list" where
  "scaling_constants =
     [(''MALI_CONFIG_L2_CACHE_COUNT'', DOMAIN_MEM),
      (''MALI_CONFIG_SHADER_CORE_COUNT'', DOMAIN_SC)]"

definition other_constants :: "string list" where
  "other_constants = [''MALI_CONFIG_TIME_SPAN'', ''MALI_CONFIG_EXT_BUS_BYTE_SIZE'']"

definition exceptions :: "string list" where
  "exceptions = [''MaliFragOverdraw'', ''MaliSCBusTileWrBPerPx'']"

text \<open>Lark's \<open>find_data\<close>: the subtrees under the given rule name. The order in which
  Lark yields them decides nothing but which of several failing assertions is met first.\<close>

fun find_data :: "string \<Rightarrow> ast \<Rightarrow> ast list" where
  "find_data data (Tree d children) =
     (if d = data then [Tree d children] else []) @ concat (map (find_data data) children)"
| "find_data data (Token ty s) = []"
| "find_data data PyNone = []"

text \<open>\<open>str(node.children[0])\<close>: the text of a token; the text of a tree starts with
  \<open>Tree(\<close>, that of \<open>None\<close> is \<open>None\<close>. A node without children is an \<open>IndexError\<close>.\<close>

fun str_ast :: "ast \<Rightarrow> string" where
  "str_ast (Token ty s) = s"
| "str_ast (Tree d children) = ''Tree(...)''"
| "str_ast PyNone = ''None''"

fun var_name_of :: "ast \<Rightarrow> py_error + string" where
  "var_name_of (Tree d (child # rest)) = Inr (str_ast child)"
| "var_name_of node = Inl IndexError"

text \<open>The body of the loop over the \<open>name\<close> nodes, on the two sets \<open>domain_use\<close> and
  \<open>scale_use\<close>.\<close>

definition scan_name ::
  "IndexedView \<Rightarrow> ast \<Rightarrow> Domain set \<times> Domain set \<Rightarrow> py_error + Domain set \<times> Domain set" where
  "scan_name cnt_db node use =
     (case var_name_of node of
        Inl e \<Rightarrow> Inl e
      | Inr var_name \<Rightarrow>
          if var_name \<in> set other_constants \<or> CHR ''('' \<in> set var_name then Inr use
          else case map_of scaling_constants var_name of
                 Some d \<Rightarrow> Inr (fst use, insert d (snd use))
               | None \<Rightarrow>
                   (case get_by_machine_name cnt_db var_name of
                      None \<Rightarrow> Inl (AssertionError '''')
                    | Some var_counter \<Rightarrow>
                        (case block_type var_counter of
                           None \<Rightarrow> Inl (AssertionError '''')
                         | Some bt \<Rightarrow> Inr (insert (domains bt) (fst use), snd use))))"

fun scan_names ::
  "IndexedView \<Rightarrow> ast list \<Rightarrow> Domain set \<times> Domain set \<Rightarrow> py_error + Domain set \<times> Domain set" where
  "scan_names cnt_db [] use = Inr use"
| "scan_names cnt_db (node # nodes) use =
     (case scan_name cnt_db node use of
        Inl e \<Rightarrow> Inl e
      | Inr use' \<Rightarrow> scan_names cnt_db nodes use')"

text \<open>Truth value of a resolved equation: a tree is true, a token is a string.\<close>

fun ast_truthy :: "ast option \<Rightarrow> bool" where
  "ast_truthy None = False"
| "ast_truthy (Some PyNone) = False"
| "ast_truthy (Some (Token ty s)) = (s \<noteq> [])"
| "ast_truthy (Some (Tree d children)) = True"

text \<open>The body of the loop over the counters: the domains for which a missing-scaling
  error is printed for this counter. Each of them adds one to \<open>errors\<close>.\<close>

definition missing_scaling :: "IndexedView \<Rightarrow> CounterView \<Rightarrow> py_error + Domain set" where
  "missing_scaling cnt_db counter =
     (if \<not> is_derived counter \<or> \<not> ast_truthy (equation_ast_resolved counter) then Inr {}
      else if machine_name counter \<in> set exceptions then Inr {}
      else case the (equation_ast_resolved counter) of
             Tree d children \<Rightarrow>
               (case scan_names cnt_db (find_data ''name'' (Tree d children)) ({}, {}) of
                  Inl e \<Rightarrow> Inl e
                | Inr (domain_use, scale_use) \<Rightarrow>
                    if card domain_use \<le> 1 then Inr {}
                    else Inr {domain \<in> domain_use. domain \<noteq> DOMAIN_GPU \<and> domain \<notin> scale_use})
           | _ \<Rightarrow> Inl AttributeError)"

fun cardinality_loop :: "IndexedView \<Rightarrow> CounterView list \<Rightarrow> nat \<Rightarrow> py_error + nat" where
  "cardinality_loop cnt_db [] errs = Inr errs"
| "cardinality_loop cnt_db (counter # rest) errs =
     (case missing_scaling cnt_db counter of
        Inl e \<Rightarrow> Inl e
      | Inr ds \<Rightarrow> cardinality_loop cnt_db rest (errs + card ds))"

definition validate_derived_equation_cardinality :: "IndexedView \<Rightarrow> py_error + nat" where
  "validate_derived_equation_cardinality cnt_db =
     cardinality_loop cnt_db (map snd (by_machine_name cnt_db)) 0"










section \<open>Example database\<close>

definition mk_counter :: "string \<Rightarrow> int option \<Rightarrow> string option \<Rightarrow> string list \<Rightarrow> CounterVisibility \<Rightarrow> ast option \<Rightarrow> string list \<Rightarrow> CounterInfo" where
  "mk_counter n sid src als vis eq gpus =
     \<lparr> ci_machine_name = n, ci_stable_id = sid, ci_source_name = src,
       ci_source_name_aliases = als, ci_human_name = n, ci_group_name = ''Group'',
       ci_group_human_name = n, ci_visibility = vis, ci_short_description = [],
       ci_long_description = [], ci_units = ''cycles'', ci_trend = INFORMATIVE,
       ci_equation_ast = eq, ci_gpu_support = gpus \<rparr>"

definition ex_hw :: HWLayout where
  "ex_hw = map_of
     [(''SC_ACTIVE'', (\<lparr>btype = SHADER_CORE, bank = 0\<rparr>, \<lparr>index = 4, shift = 0\<rparr>)),
      (''L2_RD'', (\<lparr>btype = MEMORY_SYSTEM, bank = 0\<rparr>, \<lparr>index = 7, shift = 2\<rparr>)),
      (''GPU_ACTIVE'', (\<lparr>btype = GPU_FRONTEND, bank = 0\<rparr>, \<lparr>index = 1, shift = 0\<rparr>))]"

definition ex_pi :: ProductInfo where
  "ex_pi = \<lparr> database_key = ''gpu1'', features = [''async_clock''] \<rparr>"

definition ex_pi_sync :: ProductInfo where
  "ex_pi_sync = \<lparr> database_key = ''gpu1'', features = [] \<rparr>"

definition ex_ghost :: CounterInfo where
  "ex_ghost = mk_counter ''MaliGhost'' (Some 9) (Some ''GHOST'') [''GHOST''] NOVICE None [''gpu1'']"

definition ex_core :: CounterInfo where
  "ex_core = mk_counter ''MaliCoreActive'' (Some 1) (Some ''SC_ACTIVE'') [''SC_ACTIVE''] NOVICE None [''gpu1'']"

definition ex_l2 :: CounterInfo where
  "ex_l2 = mk_counter ''MaliL2Rd'' (Some 2) (Some ''L2_READ'') [''L2_RD'', ''L2_READ''] ADVANCED_SYSTEM None [''gpu1'']"

definition ex_db :: "CounterInfo list" where
  "ex_db = [ex_core, ex_ghost, ex_l2]"

definition name_leaf :: "string \<Rightarrow> ast" where
  "name_leaf s = Tree ''name'' [Token ''NAME'' s]"

definition ex_util_ast :: ast where
  "ex_util_ast = Tree ''start'' [Tree ''mul'' [name_leaf ''MaliCoreActive'',
          Token ''MUL_OP'' ''/'', name_leaf ''MaliL2Rd'']]"

definition ex_util :: CounterInfo where
  "ex_util = mk_counter ''MaliCoreUtil'' (Some 20) None [] NOVICE (Some ex_util_ast) [''gpu1'']"

definition ex_db2 :: "CounterInfo list" where
  "ex_db2 = [ex_core, ex_l2, ex_util]"

definition ex_doc_default :: SemanticInfo where
  "ex_doc_default = \<lparr> si_name = ''Shader'', si_long_description = ''All products'', si_gpu_support = [] \<rparr>"

definition ex_doc_default2 :: SemanticInfo where
  "ex_doc_default2 = \<lparr> si_name = ''Shader'', si_long_description = ''Again all'', si_gpu_support = [] \<rparr>"

definition ex_doc_gpu1 :: SemanticInfo where
  "ex_doc_gpu1 = \<lparr> si_name = ''Shader'', si_long_description = ''Only gpu1'', si_gpu_support = [''gpu1''] \<rparr>"


definition ex_docs :: "string \<rightharpoonup> SemanticInfo list" where
  "ex_docs = map_of [(''Shader'', [ex_doc_default, ex_doc_default2, ex_doc_gpu1]),
                     (''Tiler'', [ex_doc_gpu1, ex_doc_default, ex_doc_default2]),
                     (''Memory'', [ex_doc_default, ex_doc_gpu1])]"

definition ex_ids_db :: "CounterInfo list" where
  "ex_ids_db =
     [mk_counter ''MaliA'' (Some 0) (Some ''A'') [''A''] NOVICE None [''gpu1''],
      mk_counter ''MaliB'' None (Some ''B'') [''B''] NOVICE None [''gpu1''],
      mk_counter ''MaliC'' None (Some ''C'') [''C''] NOVICE None [''gpu1'']]"








section \<open>Properties of the compiled counter view\<close>

lemmas ex_defs = mk_counter_def ex_hw_def ex_pi_def ex_pi_sync_def ex_ghost_def ex_core_def ex_l2_def

lemma build_view_block:
  "build_view pi hw ci = Inr cv \<Longrightarrow>
     block_type cv = (if truthy (ci_source_name ci)
        then map_option (\<lambda>(n, bl, cl). btype bl) (find_hw hw (the (ci_source_name ci) # ci_source_name_aliases ci))
        else None)"
  by (auto simp: build_view_def new_CounterView_def Let_def split: option.splits if_splits)

lemma build_view_clock:
  "build_view pi hw ci = Inr cv \<Longrightarrow> clock_domain cv = compute_clock_domain pi (block_type cv)"
  by (auto simp: build_view_def new_CounterView_def Let_def split: option.splits if_splits)

lemma find_hw_name: "find_hw hw ns = Some (n, bl, cl) \<Longrightarrow> hw n = Some (bl, cl) \<and> n \<in> set ns"
  by (induction ns) (auto split: option.splits)

lemma find_hw_None: "find_hw hw ns = None \<longleftrightarrow> (\<forall>n\<in>set ns. hw n = None)"
  by (induction ns) (auto split: option.splits)

lemma build_view_source:
  "build_view pi hw ci = Inr cv \<Longrightarrow>
     source_name cv = (if truthy (ci_source_name ci)
        then (case find_hw hw (the (ci_source_name ci) # ci_source_name_aliases ci) of
                Some (n, bl, cl) \<Rightarrow> Some n | None \<Rightarrow> ci_source_name ci)
        else None)"
  by (auto simp: build_view_def new_CounterView_def Let_def split: option.splits if_splits)

lemma build_view_derived:
  assumes "build_view pi hw ci = Inr cv" and "hw [] = None"
  shows "is_derived cv \<longleftrightarrow> \<not> truthy (ci_source_name ci)"
proof (cases "truthy (ci_source_name ci)")
  case False
  then show ?thesis using build_view_source [OF assms(1)] by (simp add: is_derived_def)
next
  case True
  show ?thesis
  proof (cases "find_hw hw (the (ci_source_name ci) # ci_source_name_aliases ci)")
    case None
    then show ?thesis using True build_view_source [OF assms(1)] by (simp add: is_derived_def)
  next
    case (Some r)
    obtain n bl cl where r: "r = (n, bl, cl)" by (cases r) auto
    from find_hw_name [OF Some [unfolded r]] assms(2) have "n \<noteq> []" by auto
    then show ?thesis
      using True Some r build_view_source [OF assms(1)] by (simp add: is_derived_def)
  qed
qed

text \<open>
  Claim C6, as the code has it. For every counter view built for a product, the clock
  domain is \<open>None\<close> exactly when the view has no hardware block. Every derived counter
  has none. With a block, the domain is GPU on a product without the asynchronous clock;
  on a product with it, the domain is SHADER_CORE exactly for the shader-core block and GPU
  for every other block. Unless the layout holds a slot with an empty name, the view is
  derived exactly when the counter has no source name.
\<close>

theorem clock_domain_of_built_view:
  assumes "build_view pi hw_db ci = Inr cv"
  shows "(clock_domain cv = None \<longleftrightarrow> block_type cv = None)
       \<and> (\<not> truthy (ci_source_name ci) \<longrightarrow> clock_domain cv = None)
       \<and> (hw_db [] = None \<longrightarrow> (is_derived cv \<longleftrightarrow> \<not> truthy (ci_source_name ci)))
       \<and> (\<not> has_feature pi ''async_clock'' \<longrightarrow> block_type cv \<noteq> None
            \<longrightarrow> clock_domain cv = Some CLOCK_GPU)
       \<and> (has_feature pi ''async_clock'' \<longrightarrow>
            (clock_domain cv = Some CLOCK_SHADER_CORE \<longleftrightarrow> block_type cv = Some SHADER_CORE)
          \<and> (block_type cv \<noteq> None \<longrightarrow> block_type cv \<noteq> Some SHADER_CORE
               \<longrightarrow> clock_domain cv = Some CLOCK_GPU))"
proof -
  have c: "clock_domain cv = compute_clock_domain pi (block_type cv)"
    using assms by (rule build_view_clock)
  have b: "\<not> truthy (ci_source_name ci) \<Longrightarrow> block_type cv = None"
    using build_view_block [OF assms] by simp
  show ?thesis
    using b build_view_derived [OF assms]
    by (auto simp: c compute_clock_domain_def split: option.splits)
qed

text \<open>The shader-core counter of the example database, on a product with and on a
  product without the asynchronous clock.\<close>

theorem clock_domain_of_built_view_witness:
  "\<not> isl (build_view ex_pi ex_hw ex_core)
   \<and> clock_domain (projr (build_view ex_pi ex_hw ex_core)) = Some CLOCK_SHADER_CORE
   \<and> \<not> is_derived (projr (build_view ex_pi ex_hw ex_core))
   \<and> \<not> isl (build_view ex_pi_sync ex_hw ex_core)
   \<and> clock_domain (projr (build_view ex_pi_sync ex_hw ex_core)) = Some CLOCK_GPU"
proof -
  have h1: "build_view ex_pi ex_hw ex_core = Inr (projr (build_view ex_pi ex_hw ex_core))"
    by (simp add: build_view_def new_CounterView_def Let_def ex_defs)
  have h2: "build_view ex_pi_sync ex_hw ex_core = Inr (projr (build_view ex_pi_sync ex_hw ex_core))"
    by (simp add: build_view_def new_CounterView_def Let_def ex_defs)
  have f1: "has_feature ex_pi ''async_clock''" by (simp add: has_feature_def ex_pi_def)
  have f2: "\<not> has_feature ex_pi_sync ''async_clock''" by (simp add: has_feature_def ex_pi_sync_def)
  have b1: "block_type (projr (build_view ex_pi ex_hw ex_core)) = Some SHADER_CORE"
    by (simp add: build_view_def new_CounterView_def Let_def ex_defs)
  have b2: "block_type (projr (build_view ex_pi_sync ex_hw ex_core)) = Some SHADER_CORE"
    by (simp add: build_view_def new_CounterView_def Let_def ex_defs)
  have n1: "\<not> isl (build_view ex_pi ex_hw ex_core)" by (subst h1) simp
  have n2: "\<not> isl (build_view ex_pi_sync ex_hw ex_core)" by (subst h2) simp
  have e: "ex_hw [] = None" by (simp add: ex_hw_def)
  have s: "truthy (ci_source_name ex_core)" by (simp add: ex_defs)
  show ?thesis
    using clock_domain_of_built_view [OF h1] clock_domain_of_built_view [OF h2] f1 f2 b1 b2 e s n1 n2
    by simp
qed

text \<open>
  Claim C6 as stated fails: a native counter whose source name is in no layout slot is
  built, is not derived, and has the clock domain \<open>None\<close>.
\<close>

theorem clock_domain_none_iff_derived_counterexample:
  "\<not> isl (build_view ex_pi ex_hw ex_ghost)
   \<and> clock_domain (projr (build_view ex_pi ex_hw ex_ghost)) = None
   \<and> \<not> is_derived (projr (build_view ex_pi ex_hw ex_ghost))"
  by (simp add: build_view_def new_CounterView_def Let_def compute_clock_domain_def is_derived_def ex_defs)

lemma build_view_stable_id:
  "build_view pi hw ci = Inr cv \<Longrightarrow> ci_stable_id ci = Some (stable_id cv)"
  by (auto simp: build_view_def new_CounterView_def Let_def split: option.splits if_splits)

lemma build_view_ok:
  "ci_stable_id ci = Some sid \<Longrightarrow> \<exists>cv. build_view pi hw ci = Inr cv"
  by (auto simp: build_view_def new_CounterView_def Let_def split: option.splits)

lemma key_add_indexes [simp]: "key (add_indexes c v) = key v"
  by (simp add: add_indexes_def)

lemma gpu_add_indexes [simp]: "gpu (add_indexes c v) = gpu v"
  by (simp add: add_indexes_def)

lemma by_stable_id_add_indexes:
  "map_of (by_stable_id (add_indexes c v)) = (map_of (by_stable_id v))(stable_id c \<mapsto> c)"
  by (simp add: add_indexes_def update_conv')

lemma by_machine_name_add_indexes:
  "map_of (by_machine_name (add_indexes c v)) = (map_of (by_machine_name v))(lower (machine_name c) \<mapsto> c)"
  by (simp add: add_indexes_def update_conv')

lemma from_db_loop_ok:
  "(\<forall>c\<in>set cs. supports_gpu c (key view) \<longrightarrow> ci_stable_id c \<noteq> None)
   \<Longrightarrow> \<exists>v. from_db_loop pi hw cs view = Inr v"
proof (induction cs arbitrary: view)
  case Nil
  then show ?case by simp
next
  case (Cons c cs)
  show ?case
  proof (cases "supports_gpu c (key view)")
    case False
    then show ?thesis using Cons by simp
  next
    case True
    then obtain sid where "ci_stable_id c = Some sid" using Cons.prems by auto
    then obtain cv where cv: "build_view pi hw c = Inr cv" using build_view_ok by blast
    have "\<exists>v. from_db_loop pi hw cs (add_indexes cv view) = Inr v"
      using Cons.prems by (intro Cons.IH) simp
    then show ?thesis using True cv by simp
  qed
qed

lemma from_db_loop_key:
  "from_db_loop pi hw cs view = Inr v \<Longrightarrow> key v = key view \<and> gpu v = gpu view"
  by (induction cs arbitrary: view) (auto split: if_splits sum.splits)

lemma from_db_loop_other_id:
  "from_db_loop pi hw cs view = Inr v \<Longrightarrow>
   (\<forall>c\<in>set cs. supports_gpu c (key view) \<longrightarrow> ci_stable_id c \<noteq> Some sid) \<Longrightarrow>
   map_of (by_stable_id v) sid = map_of (by_stable_id view) sid"
proof (induction cs arbitrary: view)
  case Nil
  then show ?case by simp
next
  case (Cons c cs)
  show ?case
  proof (cases "supports_gpu c (key view)")
    case False
    then show ?thesis using Cons by simp
  next
    case True
    then obtain cv where cv: "build_view pi hw c = Inr cv"
      and r: "from_db_loop pi hw cs (add_indexes cv view) = Inr v"
      using Cons.prems(1) by (auto split: sum.splits)
    have ne: "stable_id cv \<noteq> sid"
      using build_view_stable_id [OF cv] Cons.prems(2) True by auto
    have "map_of (by_stable_id v) sid = map_of (by_stable_id (add_indexes cv view)) sid"
      using Cons.prems(2) by (intro Cons.IH [OF r]) simp
    then show ?thesis using ne by (simp add: by_stable_id_add_indexes)
  qed
qed

lemma from_db_loop_last_id:
  "from_db_loop pi hw cs view = Inr v \<Longrightarrow> ci \<in> set cs \<Longrightarrow> supports_gpu ci (key view) \<Longrightarrow>
   build_view pi hw ci = Inr cv \<Longrightarrow>
   (\<forall>c\<in>set cs. supports_gpu c (key view) \<longrightarrow> ci_stable_id c = ci_stable_id ci \<longrightarrow> c = ci) \<Longrightarrow>
   map_of (by_stable_id v) (stable_id cv) = Some cv"
proof (induction cs arbitrary: view)
  case Nil
  then show ?case by simp
next
  case (Cons c cs)
  note sid = build_view_stable_id [OF Cons.prems(4)]
  show ?case
  proof (cases "supports_gpu c (key view)")
    case False
    then have "ci \<in> set cs" using Cons.prems(2,3) by auto
    then show ?thesis using False Cons by simp
  next
    case True
    then obtain cv' where cv': "build_view pi hw c = Inr cv'"
      and r: "from_db_loop pi hw cs (add_indexes cv' view) = Inr v"
      using Cons.prems(1) by (auto split: sum.splits)
    show ?thesis
    proof (cases "ci \<in> set cs")
      case True
      show ?thesis
        using Cons.prems(3,5) by (intro Cons.IH [OF r True _ Cons.prems(4)]) simp_all
    next
      case False
      then have eq: "c = ci" using Cons.prems(2) by simp
      have "\<forall>c\<in>set cs. supports_gpu c (key (add_indexes cv' view)) \<longrightarrow> ci_stable_id c \<noteq> Some (stable_id cv)"
        using Cons.prems(5) False sid by auto
      from from_db_loop_other_id [OF r this]
      show ?thesis using eq cv' Cons.prems(4) by (simp add: by_stable_id_add_indexes)
    qed
  qed
qed

lemma build_view_unmatched:
  assumes "truthy (ci_source_name ci)"
    and "\<forall>n\<in>set (the (ci_source_name ci) # ci_source_name_aliases ci). hw_db n = None"
    and "build_view pi hw_db ci = Inr cv"
  shows "source_name cv = ci_source_name ci \<and> \<not> is_derived cv \<and> block_type cv = None
       \<and> block_index cv = 0 \<and> scale_multiplier cv = 1 \<and> clock_domain cv = None"
proof -
  have "find_hw hw_db (the (ci_source_name ci) # ci_source_name_aliases ci) = None"
    using assms(2) by (simp only: find_hw_None)
  then have "new_CounterView pi (ci_source_name ci) None None ci = Inr cv"
    using assms(1,3) by (simp add: build_view_def)
  then show ?thesis
    using assms(1)
    by (auto simp: new_CounterView_def Let_def is_derived_def compute_clock_domain_def
             split: option.splits)
qed

text \<open>
  Claim C10. A counter with a source name that the product supports, none of whose names
  is a slot of the hardware layout: when every supported counter of the database carries a
  stable ID (the one assertion of the constructor) and no other supported counter shares
  this one's, \<open>from_db\<close> returns a view, and that view holds under the counter's stable
  ID the view built for it, which keeps the source name, is not derived, and has block type
  \<open>None\<close>, block index 0, scale multiplier 1 and clock domain \<open>None\<close>.
\<close>

theorem from_db_keeps_unmatched_native:
  assumes "ci \<in> set ct_db" and "supports_gpu ci (database_key pi)"
    and "truthy (ci_source_name ci)"
    and "\<forall>n\<in>set (the (ci_source_name ci) # ci_source_name_aliases ci). hw_db n = None"
    and "\<forall>c\<in>set ct_db. supports_gpu c (database_key pi) \<longrightarrow> ci_stable_id c \<noteq> None"
    and "\<forall>c\<in>set ct_db. supports_gpu c (database_key pi) \<longrightarrow>
           ci_stable_id c = ci_stable_id ci \<longrightarrow> c = ci"
  shows "\<exists>v cv. from_db product pi hw_db ct_db = Inr v
           \<and> build_view pi hw_db ci = Inr cv
           \<and> ci_stable_id ci = Some (stable_id cv)
           \<and> get_by_stable_id v (stable_id cv) = Some cv
           \<and> source_name cv = ci_source_name ci \<and> \<not> is_derived cv
           \<and> block_type cv = None \<and> block_index cv = 0 \<and> scale_multiplier cv = 1
           \<and> clock_domain cv = None"
proof -
  let ?v0 = "new_IndexedView product (database_key pi)"
  have k: "key ?v0 = database_key pi" by (simp add: new_IndexedView_def)
  obtain v where v: "from_db_loop pi hw_db ct_db ?v0 = Inr v"
    using from_db_loop_ok [of ct_db ?v0 pi hw_db] assms(5) k by auto
  obtain sid where "ci_stable_id ci = Some sid" using assms(1,2,5) by auto
  then obtain cv where cv: "build_view pi hw_db ci = Inr cv" using build_view_ok by blast
  have "map_of (by_stable_id v) (stable_id cv) = Some cv"
    using assms(1,2,6) k by (intro from_db_loop_last_id [OF v _ _ cv]) simp_all
  then show ?thesis
    using v cv build_view_stable_id [OF cv] build_view_unmatched [OF assms(3,4) cv]
    by (simp add: from_db_def get_by_stable_id_def)
qed

text \<open>The counter \<open>MaliGhost\<close> of the example database, whose source name
  \<open>GHOST\<close> is no slot of the example layout.\<close>

theorem from_db_keeps_unmatched_native_witness:
  "\<not> isl (from_db ''gpu1'' ex_pi ex_hw ex_db)
   \<and> get_by_stable_id (projr (from_db ''gpu1'' ex_pi ex_hw ex_db)) 9
       = Some (projr (build_view ex_pi ex_hw ex_ghost))
   \<and> source_name (projr (build_view ex_pi ex_hw ex_ghost)) = Some ''GHOST''
   \<and> block_type (projr (build_view ex_pi ex_hw ex_ghost)) = None
   \<and> clock_domain (projr (build_view ex_pi ex_hw ex_ghost)) = None"
proof -
  have 1: "ex_ghost \<in> set ex_db" by (simp add: ex_db_def)
  have 2: "supports_gpu ex_ghost (database_key ex_pi)" by (simp add: supports_gpu_def ex_defs)
  have 3: "truthy (ci_source_name ex_ghost)" by (simp add: ex_defs)
  have 4: "\<forall>n\<in>set (the (ci_source_name ex_ghost) # ci_source_name_aliases ex_ghost). ex_hw n = None"
    by (simp add: ex_defs)
  have 5: "\<forall>c\<in>set ex_db. supports_gpu c (database_key ex_pi) \<longrightarrow> ci_stable_id c \<noteq> None"
    by (simp add: ex_db_def ex_defs)
  have 6: "\<forall>c\<in>set ex_db. supports_gpu c (database_key ex_pi) \<longrightarrow>
             ci_stable_id c = ci_stable_id ex_ghost \<longrightarrow> c = ex_ghost"
    by (simp add: ex_db_def ex_defs)
  have 7: "ci_stable_id ex_ghost = Some 9" "ci_source_name ex_ghost = Some ''GHOST''"
    by (simp_all add: ex_defs)
  from from_db_keeps_unmatched_native [OF 1 2 3 4 5 6, of "''gpu1''"]
  obtain v cv where "from_db ''gpu1'' ex_pi ex_hw ex_db = Inr v"
    "build_view ex_pi ex_hw ex_ghost = Inr cv" "ci_stable_id ex_ghost = Some (stable_id cv)"
    "get_by_stable_id v (stable_id cv) = Some cv" "source_name cv = ci_source_name ex_ghost"
    "block_type cv = None" "clock_domain cv = None"
    by blast
  then show ?thesis using 7 by simp
qed

text \<open>A loop of dictionary assignments \<open>d[kf(c)] = c\<close>.\<close>

lemma update_set_cases:
  "(k', c') \<in> set (AList.update k c al) \<Longrightarrow> (k', c') = (k, c) \<or> (k', c') \<in> set al"
  by (induction al) (auto split: if_splits)

lemma foldl_update_keys:
  "fst ` set (foldl (\<lambda>al c. AList.update (kf c) c al) al0 cs) = fst ` set al0 \<union> kf ` set cs"
  by (induction cs arbitrary: al0) (auto simp: dom_update)

lemma foldl_update_distinct:
  "distinct (map fst al0) \<Longrightarrow> distinct (map fst (foldl (\<lambda>al c. AList.update (kf c) c al) al0 cs))"
  by (induction cs arbitrary: al0) (auto simp: distinct_update)

lemma foldl_update_entries:
  "(k, c) \<in> set (foldl (\<lambda>al c. AList.update (kf c) c al) al0 cs) \<Longrightarrow>
     (k, c) \<in> set al0 \<or> (c \<in> set cs \<and> k = kf c)"
proof (induction cs arbitrary: al0)
  case Nil
  then show ?case by simp
next
  case (Cons a cs)
  from Cons.IH [OF Cons.prems [simplified]]
  show ?case by (auto dest: update_set_cases)
qed

lemma foldl_update_append:
  "distinct (map kf cs) \<Longrightarrow> kf ` set cs \<inter> fst ` set al0 = {} \<Longrightarrow>
   foldl (\<lambda>al c. AList.update (kf c) c al) al0 cs = al0 @ map (\<lambda>c. (kf c, c)) cs"
proof (induction cs arbitrary: al0)
  case Nil
  then show ?case by simp
next
  case (Cons a cs)
  have a: "AList.update (kf a) a al0 = al0 @ [(kf a, a)]"
    using Cons.prems(2) by (induction al0) auto
  have "foldl (\<lambda>al c. AList.update (kf c) c al) (al0 @ [(kf a, a)]) cs
          = (al0 @ [(kf a, a)]) @ map (\<lambda>c. (kf c, c)) cs"
    using Cons.prems by (intro Cons.IH) auto
  then show ?case using a by simp
qed

lemma filter_step_eq:
  "filter_step mv d c st =
     (if passes_filter mv d c then (fst st, add_indexes c (snd st)) else st)"
  by (auto simp: filter_step_def passes_filter_def is_visible_def)

lemma filter_loop_fst: "fst (filter_loop mv d cs st) = fst st"
  by (induction cs arbitrary: st) (simp_all add: filter_step_eq)

lemma filter_loop_gpu_key:
  "gpu (snd (filter_loop mv d cs st)) = gpu (snd st) \<and> key (snd (filter_loop mv d cs st)) = key (snd st)"
  by (induction cs arbitrary: st) (simp_all add: filter_step_eq)

lemma filter_loop_by_stable_id:
  "by_stable_id (snd (filter_loop mv d cs st)) =
     foldl (\<lambda>al c. AList.update (stable_id c) c al) (by_stable_id (snd st))
       (filter (passes_filter mv d) cs)"
  by (induction cs arbitrary: st) (simp_all add: filter_step_eq add_indexes_def)

lemma filter_loop_by_machine_name:
  "by_machine_name (snd (filter_loop mv d cs st)) =
     foldl (\<lambda>al c. AList.update (lower (machine_name c)) c al) (by_machine_name (snd st))
       (filter (passes_filter mv d) cs)"
  by (induction cs arbitrary: st) (simp_all add: filter_step_eq add_indexes_def)

lemma filter_loop_by_human_name:
  "by_human_name (snd (filter_loop mv d cs st)) =
     foldl (\<lambda>al c. AList.update (lower (human_name c)) c al) (by_human_name (snd st))
       (filter (passes_filter mv d) cs)"
  by (induction cs arbitrary: st) (simp_all add: filter_step_eq add_indexes_def)

lemma filter_loop_by_group_names:
  "by_group_names (snd (filter_loop mv d cs st)) =
     foldl (\<lambda>al c. AList.update (lower (group_index (group_name c) (group_human_name c))) c al)
       (by_group_names (snd st)) (filter (passes_filter mv d) cs)"
  by (induction cs arbitrary: st) (simp_all add: filter_step_eq add_indexes_def)

lemma filter_loop_by_source_name:
  "by_source_name (snd (filter_loop mv d cs st)) =
     foldl (\<lambda>al c. AList.update (lower (the (source_name c))) c al) (by_source_name (snd st))
       (filter (\<lambda>c. truthy (source_name c)) (filter (passes_filter mv d) cs))"
  by (induction cs arbitrary: st) (simp_all add: filter_step_eq add_indexes_def)

lemma index_over_foldl:
  "index_over (foldl (\<lambda>al c. AList.update (kf c) c al) [] cs) (set cs) kf"
  unfolding index_over_def
proof (intro conjI)
  show "distinct (map fst (foldl (\<lambda>al c. AList.update (kf c) c al) [] cs))"
    by (rule foldl_update_distinct) simp
  show "\<forall>(k, c)\<in>set (foldl (\<lambda>al c. AList.update (kf c) c al) [] cs). c \<in> set cs \<and> k = kf c"
    using foldl_update_entries [of _ _ kf "[]" cs] by auto
  show "fst ` set (foldl (\<lambda>al c. AList.update (kf c) c al) [] cs) = kf ` set cs"
    by (simp add: foldl_update_keys)
qed

lemma keyed_values:
  "\<forall>(k, c)\<in>set al. kf c = k \<Longrightarrow> map (\<lambda>c. (kf c, c)) (map snd al) = al"
  by (induction al) auto

lemma well_indexed_values:
  assumes "well_indexed v"
  shows "distinct (map stable_id (map snd (by_stable_id v)))"
    and "map (\<lambda>c. (stable_id c, c)) (map snd (by_stable_id v)) = by_stable_id v"
proof -
  have e: "map (\<lambda>c. (stable_id c, c)) (map snd (by_stable_id v)) = by_stable_id v"
    using assms unfolding well_indexed_def by (intro keyed_values) simp
  show "map (\<lambda>c. (stable_id c, c)) (map snd (by_stable_id v)) = by_stable_id v" by (rule e)
  have "map stable_id (map snd (by_stable_id v)) = map fst (map (\<lambda>c. (stable_id c, c)) (map snd (by_stable_id v)))"
    by (simp add: comp_def)
  also have "\<dots> = map fst (by_stable_id v)" by (simp only: e)
  finally have m: "map stable_id (map snd (by_stable_id v)) = map fst (by_stable_id v)" .
  show "distinct (map stable_id (map snd (by_stable_id v)))"
    unfolding m using assms by (simp add: well_indexed_def)
qed

lemma filter_view_by_stable_id:
  assumes "well_indexed self"
  shows "by_stable_id (snd (filter_view self mv d)) =
           filter (\<lambda>(k, c). passes_filter mv d c) (by_stable_id self)"
proof -
  let ?cs = "map snd (by_stable_id self)"
  let ?P = "passes_filter mv d"
  have d: "distinct (map stable_id (filter ?P ?cs))"
    using well_indexed_values(1) [OF assms] by (rule distinct_map_filter)
  have "by_stable_id (snd (filter_view self mv d)) =
          foldl (\<lambda>al c. AList.update (stable_id c) c al) [] (filter ?P ?cs)"
    by (simp add: filter_view_def filter_loop_by_stable_id new_IndexedView_def)
  also have "\<dots> = [] @ map (\<lambda>c. (stable_id c, c)) (filter ?P ?cs)"
    using d by (intro foldl_update_append) simp_all
  also have "\<dots> = filter (\<lambda>(k, c). ?P c) (map (\<lambda>c. (stable_id c, c)) ?cs)"
    by (simp add: filter_map comp_def)
  also have "\<dots> = filter (\<lambda>(k, c). ?P c) (by_stable_id self)"
    by (simp only: well_indexed_values(2) [OF assms])
  finally show ?thesis .
qed

lemma index_over_loop:
  "al = foldl (\<lambda>al c. AList.update (kf c) c al) [] cs \<Longrightarrow> S = set cs \<Longrightarrow> index_over al S kf"
  by (simp add: index_over_foldl)

text \<open>
  Claim C7. On a view whose stable-ID index holds every counter under its own stable ID,
  \<open>filter\<close> leaves the source view as it was and returns a view of the same product
  whose stable-ID index is the source's restricted to the counters \<open>c\<close> with
  \<open>c.visibility.value <= max_visibility.value\<close> and \<open>derived or not c.is_derived()\<close>;
  each of the five indices holds exactly counters of that subset (the source-name index
  those with a source name), each under its own key.
\<close>

theorem filter_view_correct:
  fixes self :: IndexedView and mv :: CounterVisibility and d :: bool
  defines "fv \<equiv> snd (filter_view self mv d)"
    and "S \<equiv> {c \<in> snd ` set (by_stable_id self). passes_filter mv d c}"
  assumes wf: "well_indexed self"
  shows "fst (filter_view self mv d) = self
       \<and> gpu fv = gpu self \<and> key fv = key self
       \<and> by_stable_id fv = filter (\<lambda>(k, c). passes_filter mv d c) (by_stable_id self)
       \<and> snd ` set (by_stable_id fv) = S
       \<and> index_over (by_stable_id fv) S stable_id
       \<and> index_over (by_machine_name fv) S (\<lambda>c. lower (machine_name c))
       \<and> index_over (by_source_name fv) {c \<in> S. truthy (source_name c)}
            (\<lambda>c. lower (the (source_name c)))
       \<and> index_over (by_human_name fv) S (\<lambda>c. lower (human_name c))
       \<and> index_over (by_group_names fv) S
            (\<lambda>c. lower (group_index (group_name c) (group_human_name c)))"
proof -
  let ?cs = "map snd (by_stable_id self)"
  let ?P = "passes_filter mv d"
  have S: "S = set (filter ?P ?cs)" by (auto simp: S_def)
  have S': "{c \<in> S. truthy (source_name c)} = set (filter (\<lambda>c. truthy (source_name c)) (filter ?P ?cs))"
    by (auto simp: S_def)
  have 1: "fst (filter_view self mv d) = self"
    by (simp add: filter_view_def filter_loop_fst)
  have 2: "gpu fv = gpu self \<and> key fv = key self"
    by (simp add: fv_def filter_view_def filter_loop_gpu_key new_IndexedView_def)
  have 3: "by_stable_id fv = filter (\<lambda>(k, c). passes_filter mv d c) (by_stable_id self)"
    unfolding fv_def by (rule filter_view_by_stable_id [OF wf])
  have 4: "snd ` set (by_stable_id fv) = S"
    unfolding 3 S_def by force
  have 5: "index_over (by_stable_id fv) S stable_id"
    by (rule index_over_loop [OF _ S])
       (simp add: fv_def filter_view_def filter_loop_by_stable_id new_IndexedView_def)
  have 6: "index_over (by_machine_name fv) S (\<lambda>c. lower (machine_name c))"
    by (rule index_over_loop [OF _ S])
       (simp add: fv_def filter_view_def filter_loop_by_machine_name new_IndexedView_def)
  have 7: "index_over (by_source_name fv) {c \<in> S. truthy (source_name c)}
            (\<lambda>c. lower (the (source_name c)))"
    by (rule index_over_loop [OF _ S'])
       (simp add: fv_def filter_view_def filter_loop_by_source_name new_IndexedView_def)
  have 8: "index_over (by_human_name fv) S (\<lambda>c. lower (human_name c))"
    by (rule index_over_loop [OF _ S])
       (simp add: fv_def filter_view_def filter_loop_by_human_name new_IndexedView_def)
  have 9: "index_over (by_group_names fv) S
            (\<lambda>c. lower (group_index (group_name c) (group_human_name c)))"
    by (rule index_over_loop [OF _ S])
       (simp add: fv_def filter_view_def filter_loop_by_group_names new_IndexedView_def)
  show ?thesis using 1 2 3 4 5 6 7 8 9 by blast
qed

lemma well_indexed_add:
  "well_indexed v \<Longrightarrow> well_indexed (add_indexes c v)"
  unfolding well_indexed_def add_indexes_def
  by (auto simp: distinct_update dest: update_set_cases)

lemma from_db_loop_well_indexed:
  "from_db_loop pi hw cs view = Inr v \<Longrightarrow> well_indexed view \<Longrightarrow> well_indexed v"
  by (induction cs arbitrary: view) (auto split: if_splits sum.splits intro: well_indexed_add)

lemma from_db_well_indexed:
  "from_db product pi hw ct_db = Inr v \<Longrightarrow> well_indexed v"
  unfolding from_db_def
  by (erule from_db_loop_well_indexed) (simp add: well_indexed_def new_IndexedView_def)

lemma filter_view_well_indexed:
  "well_indexed self \<Longrightarrow> well_indexed (snd (filter_view self mv d))"
  by (auto simp: well_indexed_def filter_view_by_stable_id distinct_map_filter)

lemmas ex_defs2 = ex_defs ex_util_def ex_db2_def

lemma ex_view_eval:
  "map fst (by_stable_id (projr (from_db ''gpu1'' ex_pi ex_hw ex_db2))) = [1, 2, 20]"
  by (simp add: from_db_def new_IndexedView_def supports_gpu_def build_view_def new_CounterView_def
        add_indexes_def Let_def ex_defs2)

text \<open>The view compiled from the example database, filtered twice.\<close>

theorem filter_view_correct_witness:
  "well_indexed (projr (from_db ''gpu1'' ex_pi ex_hw ex_db2))
   \<and> fst (filter_view (projr (from_db ''gpu1'' ex_pi ex_hw ex_db2)) NOVICE False)
       = projr (from_db ''gpu1'' ex_pi ex_hw ex_db2)
   \<and> map fst (by_stable_id (projr (from_db ''gpu1'' ex_pi ex_hw ex_db2))) = [1, 2, 20]
   \<and> map fst (by_stable_id (snd (filter_view (projr (from_db ''gpu1'' ex_pi ex_hw ex_db2)) NOVICE False))) = [1]
   \<and> map fst (by_stable_id (snd (filter_view (projr (from_db ''gpu1'' ex_pi ex_hw ex_db2)) ADVANCED_SYSTEM True))) = [1, 2, 20]"
proof -
  let ?V = "projr (from_db ''gpu1'' ex_pi ex_hw ex_db2)"
  have e: "by_stable_id ?V =
     [(1, projr (build_view ex_pi ex_hw ex_core)), (2, projr (build_view ex_pi ex_hw ex_l2)),
      (20, projr (build_view ex_pi ex_hw ex_util))]"
    by (simp add: from_db_def new_IndexedView_def supports_gpu_def build_view_def new_CounterView_def
        add_indexes_def Let_def ex_defs2)
  have wf: "well_indexed ?V"
    unfolding well_indexed_def e
    by (simp add: build_view_def new_CounterView_def Let_def ex_defs2)
  have p: "passes_filter NOVICE False (projr (build_view ex_pi ex_hw ex_core))"
      "\<not> passes_filter NOVICE False (projr (build_view ex_pi ex_hw ex_l2))"
      "\<not> passes_filter NOVICE False (projr (build_view ex_pi ex_hw ex_util))"
      "passes_filter ADVANCED_SYSTEM True (projr (build_view ex_pi ex_hw ex_core))"
      "passes_filter ADVANCED_SYSTEM True (projr (build_view ex_pi ex_hw ex_l2))"
      "passes_filter ADVANCED_SYSTEM True (projr (build_view ex_pi ex_hw ex_util))"
    by (simp_all add: passes_filter_def is_derived_def build_view_def new_CounterView_def Let_def ex_defs2)
  show ?thesis
    using filter_view_correct [OF wf, of NOVICE False]
      filter_view_correct [OF wf, of ADVANCED_SYSTEM True] wf
    by (simp add: e p)
qed


section \<open>Properties of the documentation lookup\<close>

lemma get_info_loop_char:
  "get_info_loop k l default_info =
     (let ds = (case default_info of None \<Rightarrow> [] | Some d \<Rightarrow> [d]) @ defaults (before_match k l) in
      if 2 \<le> length ds then Inl (AssertionError ''Two defaults'')
      else case first_match k l of
             Some info \<Rightarrow> Inr info
           | None \<Rightarrow> (case ds of [] \<Rightarrow> Inl (KeyError ''No default'') | d # _ \<Rightarrow> Inr d))"
proof (induction l arbitrary: default_info)
  case Nil
  then show ?case
    by (simp add: defaults_def before_match_def first_match_def split: option.splits)
next
  case (Cons a l)
  show ?case
  proof (cases "k \<in> set (si_gpu_support a)")
    case True
    then show ?thesis
      by (simp add: defaults_def before_match_def first_match_def split: option.splits)
  next
    case False
    show ?thesis
    proof (cases "si_gpu_support a = []")
      case True
      then show ?thesis
        by (cases default_info)
           (simp_all add: Cons.IH defaults_def before_match_def first_match_def Let_def
                split: option.splits list.splits)
    next
      case nd: False
      then show ?thesis using False
        by (simp add: Cons.IH defaults_def before_match_def first_match_def Let_def)
    qed
  qed
qed

text \<open>
  Claim C9, as the code has it. A missing or empty candidate list is a \<open>KeyError\<close>. Two
  default entries (empty applicability list) standing before the first entry that names the
  key fail the assertion, also when an entry naming the key follows. Otherwise the first
  entry naming the key is returned, whatever defaults follow it; with no such entry the
  single default is returned, and no default is a \<open>KeyError\<close>.
\<close>

theorem get_info_for_result:
  "get_info_for groups k g =
     (case groups g of
        None \<Rightarrow> Inl (KeyError ''No group'')
      | Some l \<Rightarrow>
          if l = [] then Inl (KeyError ''No group'')
          else if 2 \<le> length (defaults (before_match k l))
            then Inl (AssertionError ''Two defaults'')
          else case first_match k l of
                 Some info \<Rightarrow> Inr info
               | None \<Rightarrow> (case defaults l of
                            [] \<Rightarrow> Inl (KeyError ''No default'')
                          | d # _ \<Rightarrow> Inr d))"
proof -
  have nm: "first_match k l = None \<Longrightarrow> before_match k l = l" for l
    by (simp add: first_match_def before_match_def find_None_iff takeWhile_eq_all_conv)
  show ?thesis
    by (auto simp: get_info_for_def get_info_loop_char Let_def nm split: option.splits list.splits)
qed

lemmas ex_doc_defs = ex_docs_def ex_doc_default_def ex_doc_default2_def ex_doc_gpu1_def

text \<open>Lookups in the example documentation.\<close>

theorem get_info_for_result_witness:
  "get_info_for ex_docs ''gpu1'' ''Memory'' = Inr ex_doc_gpu1
   \<and> get_info_for ex_docs ''gpu2'' ''Memory'' = Inr ex_doc_default
   \<and> get_info_for ex_docs ''gpu1'' ''Tiler'' = Inr ex_doc_gpu1
   \<and> get_info_for ex_docs ''gpu2'' ''Tiler'' = Inl (AssertionError ''Two defaults'')
   \<and> get_info_for ex_docs ''gpu1'' ''Front'' = Inl (KeyError ''No group'')"
  using get_info_for_result [of ex_docs "''gpu1''" "''Memory''"]
    get_info_for_result [of ex_docs "''gpu2''" "''Memory''"]
    get_info_for_result [of ex_docs "''gpu1''" "''Tiler''"]
    get_info_for_result [of ex_docs "''gpu2''" "''Tiler''"]
    get_info_for_result [of ex_docs "''gpu1''" "''Front''"]
  by (simp add: ex_doc_defs defaults_def before_match_def first_match_def)

text \<open>
  Claim C9 as stated fails in both readings. With two defaults before the entry naming
  the key, that entry is not returned: the assertion fails. With the entry naming the key
  before two defaults, the second default is no error: the entry is returned.
\<close>

theorem get_info_for_first_match_counterexample:
  "ex_docs ''Shader'' = Some [ex_doc_default, ex_doc_default2, ex_doc_gpu1]
   \<and> ''gpu1'' \<in> set (si_gpu_support ex_doc_gpu1)
   \<and> get_info_for ex_docs ''gpu1'' ''Shader'' = Inl (AssertionError ''Two defaults'')
   \<and> ex_docs ''Tiler'' = Some [ex_doc_gpu1, ex_doc_default, ex_doc_default2]
   \<and> get_info_for ex_docs ''gpu1'' ''Tiler'' = Inr ex_doc_gpu1"
  by (simp add: get_info_for_def ex_doc_defs)


section \<open>Properties of the stable-ID check\<close>

text \<open>
  Claim C8 at a database with one counter holding stable ID 0 and two counters of
  different machine names holding none: both receive the ID 1, so the second is given an
  ID that the first has just taken. The run reports the two missing IDs.
\<close>

theorem validate_stable_ids_shared_id:
  "\<not> isl (validate_stable_ids ex_ids_db)
   \<and> fst (projr (validate_stable_ids ex_ids_db)) = 2
   \<and> map ci_machine_name (snd (projr (validate_stable_ids ex_ids_db))) = [''MaliA'', ''MaliB'', ''MaliC'']
   \<and> map ci_stable_id (snd (projr (validate_stable_ids ex_ids_db))) = [Some 0, Some 1, Some 1]"
  by code_simp

text \<open>With no stable ID in the whole database the search for an unused ID takes the
  maximum of no keys, and the check ends in \<open>ValueError\<close> with nothing assigned.\<close>

theorem validate_stable_ids_no_ids:
  "validate_stable_ids (tl ex_ids_db) = Inl (ValueError ''max() arg is an empty sequence'')"
  by code_simp


section \<open>Properties of the resolve transformer\<close>


text \<open>A transform that ends within some nesting depth gives the same result at every
  greater one.\<close>

lemma resolve_more_fuel:
  "resolve fuel view a = Some x \<Longrightarrow> fuel \<le> m \<Longrightarrow> resolve m view a = Some x"
  and "resolve_children fuel view cs = Some xs \<Longrightarrow> fuel \<le> m \<Longrightarrow> resolve_children m view cs = Some xs"
proof (induction fuel view a and fuel view cs arbitrary: x m and xs m rule: resolve_resolve_children.induct)
  case (1 fuel view)
  then show ?case by simp
next
  case (2 fuel view ty args)
  show ?case
  proof (cases "ty = ''NAME'' \<and> \<not> CONSTANT_PATTERN_match args")
    case False
    then show ?thesis using "2.prems" by auto
  next
    case t: True
    show ?thesis
    proof (cases "get_by_machine_name view args")
      case None
      then show ?thesis using t "2.prems" by simp
    next
      case (Some c)
      show ?thesis
      proof (cases "is_derived c")
        case False
        then show ?thesis using t Some "2.prems" by simp
      next
        case dv: True
        obtain fuel' where f: "fuel = Suc fuel'"
          using t Some dv "2.prems"(1) by (cases fuel) auto
        obtain m' where m: "m = Suc m'" and le: "fuel' \<le> m'"
          using f "2.prems"(2) by (cases m) auto
        show ?thesis
        proof (cases "equation_ast c")
          case None
          then show ?thesis using t Some dv f m "2.prems" by simp
        next
          case eq: (Some a)
          have r: "resolve fuel' view a = Some x" using t Some dv f eq "2.prems"(1) by simp
          have n1: "\<not> ty \<noteq> ''NAME''" and n2: "\<not> CONSTANT_PATTERN_match args"
            using t by simp_all
          have n4: "\<not> \<not> is_derived c" using dv by simp
          have "resolve m' view a = Some x"
            by (rule "2.IH" [OF n1 n2 Some n4 f eq r le])
          then show ?thesis using t Some dv m eq by simp
        qed
      qed
    qed
  qed
next
  case (3 fuel view d children)
  from "3.prems"(1) obtain xs where xs: "resolve_children fuel view children = Some xs"
    by (auto split: option.splits)
  have "resolve_children m view children = Some xs"
    by (rule "3.IH" [OF xs "3.prems"(2)])
  then show ?case using "3.prems"(1) xs by simp
next
  case (4 fuel view)
  then show ?case by simp
next
  case (5 fuel view c cs)
  from "5.prems"(1) obtain y where y: "resolve fuel view c = Some y"
    by (auto split: option.splits)
  have y': "resolve m view c = Some y"
    by (rule "5.IH"(1) [OF y "5.prems"(2)])
  show ?case
  proof (cases y)
    case (Inl e)
    then show ?thesis using y y' "5.prems"(1) by simp
  next
    case (Inr c')
    from "5.prems"(1) y Inr obtain ys where ys: "resolve_children fuel view cs = Some ys"
      by (auto split: option.splits)
    have "resolve_children m view cs = Some ys"
      by (rule "5.IH"(2) [OF y Inr ys "5.prems"(2)])
    then show ?thesis using y y' Inr ys "5.prems"(1) by simp
  qed
qed




section \<open>Properties of the cardinality check\<close>





lemma cardinality_loop_sum:
  "cardinality_loop cnt_db cs errs = Inr n \<Longrightarrow>
     n = errs + sum_list (map (\<lambda>c. card (projr (missing_scaling cnt_db c))) cs)
     \<and> list_all (\<lambda>c. \<not> isl (missing_scaling cnt_db c)) cs"
proof (induction cs arbitrary: errs)
  case Nil
  then show ?case by simp
next
  case (Cons c cs)
  from Cons.prems obtain ds where ds: "missing_scaling cnt_db c = Inr ds"
    and r: "cardinality_loop cnt_db cs (errs + card ds) = Inr n"
    by (auto split: sum.splits)
  from Cons.IH [OF r] show ?case by (simp add: ds)
qed




end
